theory Spec2Isabelle
  imports Complex_Main "HOL-Library.Multiset"
begin

section \<open>Data model\<close>

text \<open>
  The kinematics engine lives in the \<open>Simulation\<close> component. JavaScript numbers are
  modelled as real numbers (the inputs are finite numbers, and rounding of the binary
  representation is outside this model).

  A control point of a velocity graph is \<^verbatim>\<open>{ t: number; v: number }\<close>; the fields are
  called \<open>pt_t\<close> and \<open>pt_v\<close> here, and the returned state \<^verbatim>\<open>{ x, v }\<close> has the
  fields \<open>st_x\<close> and \<open>st_v\<close>, so that the one-letter names stay free for variables.
\<close>

record point =
  pt_t :: real
  pt_v :: real

record kstate =
  st_x :: real
  st_v :: real

text \<open>
  \<^verbatim>\<open>interface BodyParams\<close>: the two fields of the graph builder are optional, so they
  are options here (\<open>None\<close> is \<^verbatim>\<open>undefined\<close>).
\<close>

record BodyParams =
  body_id :: string
  name :: string
  x0 :: real
  v0 :: real
  a_acc :: real
  color :: string
  isCustomGraph :: "bool option"
  graphPoints :: "point list option"

record SimulationStep =
  step_t :: real
  step_bodyA :: kstate
  step_bodyB :: kstate

definition TIME_STEP :: real where
  "TIME_STEP = 1 / 10"

definition MAX_TIME :: real where
  "MAX_TIME = 20"

section \<open>State calculator\<close>

text \<open>
  The \<^verbatim>\<open>for\<close> loop of \<open>calculateStateAtTime\<close> over the segments of the sorted
  points, with its loop index \<open>i\<close> and the two variables \<open>x\<close> and \<open>v\<close> it updates.
  The third component of the accumulator is not in the source: it records, in order,
  every divisor \<open>p2.t - p1.t\<close> by which the loop really divides, so that the absence of
  a division by zero can be stated.
\<close>

function segLoop :: "point list \<Rightarrow> real \<Rightarrow> nat \<Rightarrow> real \<times> real \<times> real list \<Rightarrow> real \<times> real \<times> real list" where
  "segLoop sortedPoints t i (x, v, ds) =
     (if i < length sortedPoints - 1 then
        let p1 = sortedPoints ! i;
            p2 = sortedPoints ! (i + 1)
        in if pt_t p1 \<ge> t then (x, v, ds)
           else
             let segmentEnd = min (pt_t p2) t;
                 dt = segmentEnd - pt_t p1
             in if dt \<le> 0 then segLoop sortedPoints t (i + 1) (x, v, ds)
                else
                  let slope = (pt_v p2 - pt_v p1) / (pt_t p2 - pt_t p1);
                      vStart = pt_v p1;
                      vEnd = vStart + slope * dt;
                      dx = ((vStart + vEnd) / 2) * dt
                  in if pt_t p2 \<ge> t then (x + dx, vEnd, ds @ [pt_t p2 - pt_t p1])
                     else segLoop sortedPoints t (i + 1) (x + dx, vEnd, ds @ [pt_t p2 - pt_t p1])
      else (x, v, ds))"
  by pat_completeness auto
termination
  by (relation "measure (\<lambda>(sortedPoints, t, i, acc). length sortedPoints - i)") auto

declare segLoop.simps [simp del]

text \<open>
  The guard of the first branch: \<^verbatim>\<open>body.isCustomGraph && body.graphPoints &&
  body.graphPoints.length >= 2\<close>. An absent field is falsy; an array is truthy whatever
  its length.
\<close>

definition usesGraph :: "BodyParams \<Rightarrow> bool" where
  "usesGraph body =
     (isCustomGraph body = Some True \<and>
      (case graphPoints body of None \<Rightarrow> False | Some ps \<Rightarrow> length ps \<ge> 2))"

text \<open>
  \<^verbatim>\<open>[...body.graphPoints].sort((a,b) => a.t - b.t)\<close>: a stable sort by time, as
  \<^const>\<open>sort_key\<close> is.
\<close>

definition sortByTime :: "point list \<Rightarrow> point list" where
  "sortByTime ps = sort_key pt_t ps"

text \<open>
  The run of \<open>calculateStateAtTime\<close> with the record of divisors: the result state and
  the divisors of all divisions performed.
\<close>

definition calculateTraced :: "BodyParams \<Rightarrow> real \<Rightarrow> kstate \<times> real list" where
  "calculateTraced body t =
     (if usesGraph body then
        let sortedPoints = sortByTime (the (graphPoints body))
        in if t \<le> 0 then (\<lparr>st_x = x0 body, st_v = pt_v (sortedPoints ! 0)\<rparr>, [])
           else (case segLoop sortedPoints t 0 (x0 body, 0, []) of
                   (x, v, ds) \<Rightarrow> (\<lparr>st_x = x, st_v = v\<rparr>, ds))
      else
        (\<lparr>st_x = x0 body + v0 body * t + 0.5 * a_acc body * t * t,
          st_v = v0 body + a_acc body * t\<rparr>, []))"

definition calculateStateAtTime :: "BodyParams \<Rightarrow> real \<Rightarrow> kstate" where
  "calculateStateAtTime body t = fst (calculateTraced body t)"


subsection \<open>The piecewise integral as the specification words it\<close>

text \<open>
  The following definitions do not come from the source. They state the integral of the
  specification: for a segment from \<open>p\<close> to \<open>q\<close> and a query time \<open>t\<close>, the
  clamped duration \<open>dt = min(t\<^sub>q, t) - t\<^sub>p\<close>, the end velocity
  \<open>v\<^sub>p + slope \<sqdot> dt\<close> and the trapezoid area \<open>((v\<^sub>p + v_end)/2) \<sqdot> dt\<close>; the covered
  segments are those, in order, that start before \<open>t\<close> and have \<open>dt > 0\<close>.
\<close>

definition specDt :: "real \<Rightarrow> point \<Rightarrow> point \<Rightarrow> real" where
  "specDt t p q = min (pt_t q) t - pt_t p"

definition specEndVelocity :: "real \<Rightarrow> point \<Rightarrow> point \<Rightarrow> real" where
  "specEndVelocity t p q = pt_v p + ((pt_v q - pt_v p) / (pt_t q - pt_t p)) * specDt t p q"

definition specTrapezoid :: "real \<Rightarrow> point \<Rightarrow> point \<Rightarrow> real" where
  "specTrapezoid t p q = ((pt_v p + specEndVelocity t p q) / 2) * specDt t p q"

definition specCovered :: "real \<Rightarrow> point list \<Rightarrow> nat \<Rightarrow> nat list" where
  "specCovered t ps i =
     filter (\<lambda>j. pt_t (ps ! j) < t \<and> specDt t (ps ! j) (ps ! (j + 1)) > 0)
       [i..<length ps - 1]"

definition specPosition :: "real \<Rightarrow> real \<Rightarrow> point list \<Rightarrow> real" where
  "specPosition xstart t ps =
     xstart + (\<Sum>j\<leftarrow>specCovered t ps 0. specTrapezoid t (ps ! j) (ps ! (j + 1)))"

section \<open>Timeline sampling and crossing detection\<close>

text \<open>
  \<^verbatim>\<open>Number(t.toFixed(1))\<close>: the nearest multiple of one tenth, the larger one of two
  equally near candidates, computed on the absolute value.
\<close>

definition toFixed1 :: "real \<Rightarrow> real" where
  "toFixed1 r =
     (if r < 0 then - (of_int \<lfloor>(- r) * 10 + 1 / 2\<rfloor> / 10)
      else of_int \<lfloor>r * 10 + 1 / 2\<rfloor> / 10)"

text \<open>
  The loop of the effect that precomputes the graph data:
  \<^verbatim>\<open>for (let t = 0; t <= MAX_TIME; t += TIME_STEP)\<close>, with the three variables
  \<open>data\<close>, \<open>meet\<close> and \<open>foundMeet\<close> it updates. The meeting point \<^verbatim>\<open>{t, x}\<close> is a pair
  and \<^verbatim>\<open>null\<close> is \<open>None\<close>.

  The counter is a real number here, so it takes the values \<open>k \<sqdot> TIME_STEP\<close> exactly and
  \<open>t - TIME_STEP\<close> is exactly the previous counter value. The counter of the program is a
  binary floating-point number whose additions round: it drifts from the decimal grid (its
  last value that does not exceed \<open>MAX_TIME\<close> is about 19.9, not 20), and \<open>t - TIME_STEP\<close>
  need not be the previous counter value. The number of samples, the decimal value of a
  counter and the coincidence of a recomputed previous state with a stored sample are
  therefore facts of this model only; the claims below are stated without them.
\<close>

function simLoop :: "BodyParams \<Rightarrow> BodyParams \<Rightarrow> real
    \<Rightarrow> SimulationStep list \<times> (real \<times> real) option \<times> bool
    \<Rightarrow> SimulationStep list \<times> (real \<times> real) option \<times> bool" where
  "simLoop bodyA bodyB t (data, meet, foundMeet) =
     (if t \<le> MAX_TIME then
        let stateA = calculateStateAtTime bodyA t;
            stateB = calculateStateAtTime bodyB t;
            found =
              (if \<not> foundMeet \<and> t > 0 then
                 let prevStateA = calculateStateAtTime bodyA (t - TIME_STEP);
                     prevStateB = calculateStateAtTime bodyB (t - TIME_STEP);
                     prevXa = st_x prevStateA;
                     prevXb = st_x prevStateB;
                     xa = st_x stateA;
                     xb = st_x stateB
                 in if (prevXa < prevXb \<and> xa \<ge> xb) \<or> (prevXa > prevXb \<and> xa \<le> xb)
                    then (Some (t, xa), True)
                    else (meet, foundMeet)
               else (meet, foundMeet))
        in simLoop bodyA bodyB (t + TIME_STEP)
             (data @ [\<lparr>step_t = toFixed1 t, step_bodyA = stateA, step_bodyB = stateB\<rparr>],
              fst found, snd found)
      else (data, meet, foundMeet))"
  by pat_completeness auto
termination
proof (relation "measure (\<lambda>(bodyA, bodyB, t, acc). nat (\<lfloor>(MAX_TIME - t) / TIME_STEP\<rfloor> + 1))")
  show "wf (measure (\<lambda>(bodyA, bodyB, t, acc). nat (\<lfloor>(MAX_TIME - t) / TIME_STEP\<rfloor> + 1)))"
    by simp
next
  fix bodyA bodyB :: BodyParams and t :: real
    and data :: "SimulationStep list" and meet :: "(real \<times> real) option" and foundMeet :: bool
    and stateA stateB :: kstate and found :: "(real \<times> real) option \<times> bool"
  assume le: "t \<le> MAX_TIME"
  have "(MAX_TIME - (t + TIME_STEP)) / TIME_STEP = (MAX_TIME - t) / TIME_STEP - 1"
    by (simp add: TIME_STEP_def field_simps)
  then have "\<lfloor>(MAX_TIME - (t + TIME_STEP)) / TIME_STEP\<rfloor> = \<lfloor>(MAX_TIME - t) / TIME_STEP\<rfloor> - 1"
    by simp
  moreover have "0 \<le> \<lfloor>(MAX_TIME - t) / TIME_STEP\<rfloor>"
    using le by (simp add: TIME_STEP_def)
  ultimately show "((bodyA, bodyB, t + TIME_STEP,
        data @ [\<lparr>step_t = toFixed1 t, step_bodyA = stateA, step_bodyB = stateB\<rparr>],
        fst found, snd found),
       (bodyA, bodyB, t, data, meet, foundMeet))
      \<in> measure (\<lambda>(bodyA, bodyB, t, acc). nat (\<lfloor>(MAX_TIME - t) / TIME_STEP\<rfloor> + 1))"
    by simp
qed

declare simLoop.simps [simp del]

text \<open>
  The effect as a whole: \<open>data\<close> starts empty, \<open>meet\<close> is \<^verbatim>\<open>null\<close>, \<open>foundMeet\<close> is
  false and \<open>t\<close> starts at 0; the effect then stores \<open>data\<close> and \<open>meet\<close>.
\<close>

definition simulate :: "BodyParams \<Rightarrow> BodyParams \<Rightarrow> SimulationStep list \<times> (real \<times> real) option" where
  "simulate bodyA bodyB =
     (case simLoop bodyA bodyB 0 ([], None, False) of (data, meet, foundMeet) \<Rightarrow> (data, meet))"

subsection \<open>The crossing detector as the specification words it\<close>

text \<open>
  Not from the source: the detector of the specification, which walks the sampled
  sequence pairwise and reports the first step where the sign of
  \<open>x\<^sub>A - x\<^sub>B\<close> flips, with the time and the position of body A at the arrival step.
\<close>

definition specSignFlips :: "SimulationStep \<Rightarrow> SimulationStep \<Rightarrow> bool" where
  "specSignFlips prev cur =
     ((st_x (step_bodyA prev) < st_x (step_bodyB prev)
         \<and> st_x (step_bodyA cur) \<ge> st_x (step_bodyB cur))
      \<or> (st_x (step_bodyA prev) > st_x (step_bodyB prev)
         \<and> st_x (step_bodyA cur) \<le> st_x (step_bodyB cur)))"

fun specDetectCrossing :: "SimulationStep list \<Rightarrow> (real \<times> real) option" where
  "specDetectCrossing (prev # cur # rest) =
     (if specSignFlips prev cur then Some (step_t cur, st_x (step_bodyA cur))
      else specDetectCrossing (cur # rest))"
| "specDetectCrossing [prev] = None"
| "specDetectCrossing [] = None"

text \<open>The sample of both bodies at the \<open>k\<close>-th grid point \<open>k \<sqdot> TIME_STEP\<close>.\<close>

definition gridSample :: "BodyParams \<Rightarrow> BodyParams \<Rightarrow> nat \<Rightarrow> SimulationStep" where
  "gridSample bodyA bodyB k =
     \<lparr>step_t = real k * TIME_STEP,
      step_bodyA = calculateStateAtTime bodyA (real k * TIME_STEP),
      step_bodyB = calculateStateAtTime bodyB (real k * TIME_STEP)\<rparr>"

text \<open>The initial bodies of the application (\<open>INITIAL_BODY_A\<close>, \<open>INITIAL_BODY_B\<close>).\<close>

definition INITIAL_BODY_A :: BodyParams where
  "INITIAL_BODY_A =
     \<lparr>body_id = ''A'', name = ''Object A'', x0 = 0, v0 = 5, a_acc = 0, color = ''#4CC9F0'',
      isCustomGraph = None, graphPoints = None\<rparr>"

definition INITIAL_BODY_B :: BodyParams where
  "INITIAL_BODY_B =
     \<lparr>body_id = ''B'', name = ''Object B'', x0 = 50, v0 = - 2, a_acc = 0, color = ''#F72585'',
      isCustomGraph = None, graphPoints = None\<rparr>"

text \<open>Two velocity graphs used as examples: a triangle given out of order, and a graph
  with a duplicated time value.\<close>

definition trianglePoints :: "point list" where
  "trianglePoints =
     [\<lparr>pt_t = 10, pt_v = 10\<rparr>, \<lparr>pt_t = 0, pt_v = 0\<rparr>, \<lparr>pt_t = 20, pt_v = 0\<rparr>]"

definition duplicatePoints :: "point list" where
  "duplicatePoints =
     [\<lparr>pt_t = 0, pt_v = 0\<rparr>, \<lparr>pt_t = 5, pt_v = 5\<rparr>, \<lparr>pt_t = 5, pt_v = 2\<rparr>,
      \<lparr>pt_t = 10, pt_v = 2\<rparr>]"

definition graphBody :: "point list \<Rightarrow> BodyParams" where
  "graphBody ps = INITIAL_BODY_A\<lparr>isCustomGraph := Some True, graphPoints := Some ps\<rparr>"







section \<open>Playback clock\<close>

text \<open>
  The playback state of the component: the state variables \<open>isPlaying\<close> and
  \<open>currentTime\<close>, and the pending animation frame \<open>requestRef\<close>.

  The callback \<open>animate\<close> is a closure of one render of the component, and
  \<open>currentTime\<close> in its body is the constant of that render. The effect that requests
  the first frame has the dependency list \<^verbatim>\<open>[isPlaying]\<close>, so it runs only after a
  render in which \<open>isPlaying\<close> has changed, and \<open>animate\<close> requests the next frame for
  itself (\<^verbatim>\<open>requestAnimationFrame(animate)\<close> inside \<open>animate\<close> names the same closure).
  A pending frame is therefore a call of the closure created when playing started; all
  that tells such closures apart is the \<open>currentTime\<close> they hold, and the pending frame
  is that value (\<open>None\<close>: no frame is pending).
\<close>

record clock =
  isPlaying :: bool
  currentTime :: real
  requestRef :: "real option"

text \<open>
  \<^verbatim>\<open>setIsPlaying(b)\<close> together with the effect on \<^verbatim>\<open>[isPlaying]\<close>: on a change to
  true the effect requests a frame for the \<open>animate\<close> of that render, on a change
  to false it cancels the pending frame; without a change the effect does not run.
\<close>

definition setIsPlaying :: "bool \<Rightarrow> clock \<Rightarrow> clock" where
  "setIsPlaying b s =
     (if isPlaying s = b then s
      else if b then s\<lparr>isPlaying := True, requestRef := Some (currentTime s)\<rparr>
      else s\<lparr>isPlaying := False, requestRef := None\<rparr>)"

text \<open>
  \<open>animate\<close>, for the closure that holds \<open>capturedTime\<close> as its \<open>currentTime\<close>. (The
  variable \<open>progress\<close> of the source is computed and never used.)
\<close>

definition animate :: "real \<Rightarrow> clock \<Rightarrow> clock" where
  "animate capturedTime s =
     (let nextTime = capturedTime + 0.05
      in if nextTime \<ge> MAX_TIME then (setIsPlaying False s)\<lparr>currentTime := MAX_TIME\<rparr>
         else s\<lparr>currentTime := nextTime, requestRef := Some capturedTime\<rparr>)"

text \<open>A scheduler tick runs the pending frame, if there is one.\<close>

definition tick :: "clock \<Rightarrow> clock" where
  "tick s = (case requestRef s of None \<Rightarrow> s | Some capturedTime \<Rightarrow> animate capturedTime s)"

text \<open>The play/pause button: \<^verbatim>\<open>setIsPlaying(!isPlaying)\<close>.\<close>

definition togglePlay :: "clock \<Rightarrow> clock" where
  "togglePlay s = setIsPlaying (\<not> isPlaying s) s"

definition handleReset :: "clock \<Rightarrow> clock" where
  "handleReset s = (setIsPlaying False s)\<lparr>currentTime := 0\<rparr>"

text \<open>
  The \<^verbatim>\<open>onChange\<close> handler of the range input, which is the seek operation:
  \<^verbatim>\<open>setIsPlaying(false); setCurrentTime(parseFloat(e.target.value))\<close>. Its argument is
  the value that the control delivers; the control is declared with \<^verbatim>\<open>min="0"\<close> and
  \<^verbatim>\<open>max={MAX_TIME}\<close>.
\<close>

definition seek :: "real \<Rightarrow> clock \<Rightarrow> clock" where
  "seek val s = (setIsPlaying False s)\<lparr>currentTime := val\<rparr>"

text \<open>\<^verbatim>\<open>useState(false)\<close>, \<^verbatim>\<open>useState(0)\<close> and an empty \<open>requestRef\<close>.\<close>

definition initialClock :: clock where
  "initialClock = \<lparr>isPlaying = False, currentTime = 0, requestRef = None\<rparr>"

text \<open>Not from the source: the clamp of the specification.\<close>

definition specClamp :: "real \<Rightarrow> real \<Rightarrow> real \<Rightarrow> real" where
  "specClamp val lo hi = max lo (min hi val)"

text \<open>
  The states that the clock reaches from its initial state by the button, the reset
  button, the range input (which delivers values between 0 and \<open>MAX_TIME\<close>) and
  scheduler ticks.
\<close>

inductive reachable :: "clock \<Rightarrow> bool" where
  reach_initial: "reachable initialClock"
| reach_toggle: "reachable s \<Longrightarrow> reachable (togglePlay s)"
| reach_reset: "reachable s \<Longrightarrow> reachable (handleReset s)"
| reach_seek: "reachable s \<Longrightarrow> 0 \<le> val \<Longrightarrow> val \<le> MAX_TIME \<Longrightarrow> reachable (seek val s)"
| reach_tick: "reachable s \<Longrightarrow> reachable (tick s)"

section \<open>Graph editor\<close>

text \<open>The constants and coordinate maps of \<open>GraphBuilder\<close>.\<close>

definition width :: real where "width = 600"
definition height :: real where "height = 300"
definition padding :: real where "padding = 40"
definition tMax :: real where "tMax = 20"
definition vMin :: real where "vMin = - 10"
definition vMax :: real where "vMax = 10"

definition tToX :: "real \<Rightarrow> real" where
  "tToX t = padding + (t / tMax) * (width - 2 * padding)"

definition vToY :: "real \<Rightarrow> real" where
  "vToY v = height - padding - ((v - vMin) / (vMax - vMin)) * (height - 2 * padding)"

definition xToT :: "real \<Rightarrow> real" where
  "xToT x = max 0 (min tMax (((x - padding) / (width - 2 * padding)) * tMax))"

definition yToV :: "real \<Rightarrow> real" where
  "yToV y =
     max vMin (min vMax (vMin + ((height - padding - y) / (height - 2 * padding)) * (vMax - vMin)))"

text \<open>
  \<^verbatim>\<open>Array.prototype.findIndex\<close>: the index of the first element that satisfies the
  predicate, and \<open>-1\<close> when there is none.
\<close>

fun findIndex :: "('a \<Rightarrow> bool) \<Rightarrow> 'a list \<Rightarrow> int" where
  "findIndex P [] = - 1"
| "findIndex P (p # ps) =
     (if P p then 0 else (let r = findIndex P ps in if r < 0 then - 1 else r + 1))"

text \<open>The predicate of the \<open>findIndex\<close> call: the point is drawn less than 10 pixels from
  the click.\<close>

definition hits :: "real \<Rightarrow> real \<Rightarrow> point \<Rightarrow> bool" where
  "hits x y p =
     (let px = tToX (pt_t p);
          py = vToY (pt_v p)
      in sqrt ((x - px)\<^sup>2 + (y - py)\<^sup>2) < 10)"

text \<open>
  \<open>handleSvgClick\<close>, as a function from the click position (relative to the drawing,
  in pixels) and the current points to the new points. Where the source does not call
  \<open>setPoints\<close>, the points stay as they are.
\<close>

definition handleSvgClick :: "real \<Rightarrow> real \<Rightarrow> point list \<Rightarrow> point list" where
  "handleSvgClick x y points =
     (let clickedPointIndex = findIndex (hits x y) points
      in if clickedPointIndex \<ge> 0 then
           (if length points > 2 \<and> clickedPointIndex \<noteq> 0
                \<and> clickedPointIndex \<noteq> int (length points) - 1
            then map snd (filter (\<lambda>(i, p). int i \<noteq> clickedPointIndex) (enumerate 0 points))
            else points)
         else
           let t = toFixed1 (xToT x);
               v = toFixed1 (yToV y)
           in sortByTime (points @ [\<lparr>pt_t = t, pt_v = v\<rparr>]))"

text \<open>The two points of a fresh editor, and the picked point of the example.\<close>

definition defaultPoints :: "point list" where
  "defaultPoints = [\<lparr>pt_t = 0, pt_v = 0\<rparr>, \<lparr>pt_t = 20, pt_v = 0\<rparr>]"

definition pickedPoints :: "point list" where
  "pickedPoints = [\<lparr>pt_t = 0, pt_v = 0\<rparr>, \<lparr>pt_t = 5, pt_v = 3\<rparr>, \<lparr>pt_t = 20, pt_v = 0\<rparr>]"

section \<open>Constant acceleration\<close>

text \<open>
  Claim C2. For every body in constant-acceleration mode (the custom-graph flag absent
  or false) and every real \<open>t\<close>, the calculator returns the velocity \<open>v0 + a t\<close> and the
  position \<open>x0 + v0 t + 0.5 a t\<^sup>2\<close>.
\<close>

theorem constant_acceleration_state:
  assumes "isCustomGraph body = None \<or> isCustomGraph body = Some False"
  shows "st_v (calculateStateAtTime body t) = v0 body + a_acc body * t
       \<and> st_x (calculateStateAtTime body t) = x0 body + v0 body * t + 0.5 * a_acc body * t * t"
  using assms by (auto simp: calculateStateAtTime_def calculateTraced_def usesGraph_def)

theorem constant_acceleration_state_witness:
  "st_v (calculateStateAtTime
      \<lparr>body_id = ''A'', name = ''Object A'', x0 = 1, v0 = 5, a_acc = 2, color = ''#4CC9F0'',
       isCustomGraph = None, graphPoints = None\<rparr> (-3)) = -1
   \<and> st_x (calculateStateAtTime
      \<lparr>body_id = ''A'', name = ''Object A'', x0 = 1, v0 = 5, a_acc = 2, color = ''#4CC9F0'',
       isCustomGraph = None, graphPoints = None\<rparr> (-3)) = -5"
  using constant_acceleration_state [of
      "\<lparr>body_id = ''A'', name = ''Object A'', x0 = 1, v0 = 5, a_acc = 2, color = ''#4CC9F0'',
       isCustomGraph = None, graphPoints = None\<rparr>" "-3"]
  by simp

section \<open>The segment loop\<close>

lemma segLoop_done:
  "\<not> i < length ps - 1 \<Longrightarrow> segLoop ps t i (x, v, ds) = (x, v, ds)"
  by (simp add: segLoop.simps)

lemma segLoop_future:
  "pt_t (ps ! i) \<ge> t \<Longrightarrow> segLoop ps t i (x, v, ds) = (x, v, ds)"
  by (simp add: segLoop.simps Let_def)

lemma segLoop_skip:
  "i < length ps - 1 \<Longrightarrow> pt_t (ps ! i) < t \<Longrightarrow> specDt t (ps ! i) (ps ! (i + 1)) \<le> 0 \<Longrightarrow>
   segLoop ps t i (x, v, ds) = segLoop ps t (i + 1) (x, v, ds)"
  by (subst segLoop.simps) (auto simp: Let_def specDt_def min_def)

lemma segLoop_last:
  "i < length ps - 1 \<Longrightarrow> pt_t (ps ! i) < t \<Longrightarrow> specDt t (ps ! i) (ps ! (i + 1)) > 0 \<Longrightarrow>
   pt_t (ps ! (i + 1)) \<ge> t \<Longrightarrow>
   segLoop ps t i (x, v, ds) =
     (x + specTrapezoid t (ps ! i) (ps ! (i + 1)), specEndVelocity t (ps ! i) (ps ! (i + 1)),
      ds @ [pt_t (ps ! (i + 1)) - pt_t (ps ! i)])"
  by (subst segLoop.simps)
     (auto simp: Let_def specDt_def specTrapezoid_def specEndVelocity_def min_def)

lemma segLoop_next:
  "i < length ps - 1 \<Longrightarrow> pt_t (ps ! i) < t \<Longrightarrow> specDt t (ps ! i) (ps ! (i + 1)) > 0 \<Longrightarrow>
   pt_t (ps ! (i + 1)) < t \<Longrightarrow>
   segLoop ps t i (x, v, ds) =
     segLoop ps t (i + 1)
       (x + specTrapezoid t (ps ! i) (ps ! (i + 1)), specEndVelocity t (ps ! i) (ps ! (i + 1)),
        ds @ [pt_t (ps ! (i + 1)) - pt_t (ps ! i)])"
  by (subst segLoop.simps)
     (auto simp: Let_def specDt_def specTrapezoid_def specEndVelocity_def min_def)

lemma specDt_pos_divisor:
  "pt_t p < t \<Longrightarrow> specDt t p q > 0 \<Longrightarrow> pt_t q - pt_t p > 0"
  by (simp add: specDt_def min_def split: if_splits)

lemma segLoop_divisors_pos:
  "\<forall>d \<in> set ds. d > 0 \<Longrightarrow> \<forall>d \<in> set (snd (snd (segLoop ps t i (x, v, ds)))). d > 0"
proof (induction "length ps - i" arbitrary: i x v ds)
  case 0
  then have "\<not> i < length ps - 1" by simp
  with 0 show ?case by (simp add: segLoop_done)
next
  case (Suc n)
  let ?p = "ps ! i" and ?q = "ps ! (i + 1)"
  have n: "n = length ps - (i + 1)" using Suc.hyps(2) by simp
  consider (fin) "\<not> i < length ps - 1"
    | (future) "pt_t ?p \<ge> t"
    | (skip) "i < length ps - 1" "pt_t ?p < t" "specDt t ?p ?q \<le> 0"
    | (last) "i < length ps - 1" "pt_t ?p < t" "specDt t ?p ?q > 0" "pt_t ?q \<ge> t"
    | (more) "i < length ps - 1" "pt_t ?p < t" "specDt t ?p ?q > 0" "pt_t ?q < t"
    by fastforce
  then show ?case
  proof cases
    case fin
    with Suc.prems show ?thesis by (simp add: segLoop_done)
  next
    case future
    with Suc.prems show ?thesis by (simp add: segLoop_future)
  next
    case skip
    show ?thesis
      unfolding segLoop_skip [OF skip] using Suc.hyps(1) [OF n Suc.prems] .
  next
    case last
    have "pt_t ?q - pt_t ?p > 0" using specDt_pos_divisor last(2,3) by blast
    with Suc.prems show ?thesis
      unfolding segLoop_last [OF last] by simp
  next
    case more
    have d: "pt_t ?q - pt_t ?p > 0" using specDt_pos_divisor more(2,3) by blast
    have "\<forall>d \<in> set (ds @ [pt_t ?q - pt_t ?p]). d > 0" using Suc.prems d by simp
    from Suc.hyps(1) [OF n this] show ?thesis
      unfolding segLoop_next [OF more] .
  qed
qed


lemma sorted_times_mono:
  "sorted (map pt_t ps) \<Longrightarrow> i \<le> j \<Longrightarrow> j < length ps \<Longrightarrow> pt_t (ps ! i) \<le> pt_t (ps ! j)"
  using sorted_nth_mono [of "map pt_t ps" i j] by simp

lemma specCovered_future:
  assumes "sorted (map pt_t ps)" "pt_t (ps ! k) \<ge> t"
  shows "specCovered t ps k = []"
proof -
  have "\<not> pt_t (ps ! j) < t" if "j \<in> set [k..<length ps - 1]" for j
  proof -
    from that have "k \<le> j" "j < length ps" by auto
    from sorted_times_mono [OF assms(1) this] assms(2) show ?thesis by simp
  qed
  then show ?thesis by (auto simp: specCovered_def filter_empty_conv)
qed

lemma specCovered_step:
  "i < length ps - 1 \<Longrightarrow>
   specCovered t ps i =
     (if pt_t (ps ! i) < t \<and> specDt t (ps ! i) (ps ! (i + 1)) > 0 then [i] else [])
     @ specCovered t ps (i + 1)"
  by (simp add: specCovered_def upt_conv_Cons)

lemma specCovered_done:
  "\<not> i < length ps - 1 \<Longrightarrow> specCovered t ps i = []"
  by (simp add: specCovered_def)

lemma segLoop_position:
  assumes srt: "sorted (map pt_t ps)"
  shows "fst (segLoop ps t i (x, v, ds)) =
           x + (\<Sum>j\<leftarrow>specCovered t ps i. specTrapezoid t (ps ! j) (ps ! (j + 1)))"
proof (induction "length ps - i" arbitrary: i x v ds)
  case 0
  then have "\<not> i < length ps - 1" by simp
  then show ?case by (simp add: segLoop_done specCovered_done)
next
  case (Suc n)
  let ?p = "ps ! i" and ?q = "ps ! (i + 1)"
  have n: "n = length ps - (i + 1)" using Suc.hyps(2) by simp
  consider (fin) "\<not> i < length ps - 1"
    | (future) "pt_t ?p \<ge> t"
    | (skip) "i < length ps - 1" "pt_t ?p < t" "specDt t ?p ?q \<le> 0"
    | (last) "i < length ps - 1" "pt_t ?p < t" "specDt t ?p ?q > 0" "pt_t ?q \<ge> t"
    | (more) "i < length ps - 1" "pt_t ?p < t" "specDt t ?p ?q > 0" "pt_t ?q < t"
    by fastforce
  then show ?case
  proof cases
    case fin
    then show ?thesis by (simp add: segLoop_done specCovered_done)
  next
    case future
    then show ?thesis by (simp add: segLoop_future specCovered_future [OF srt])
  next
    case skip
    have "specCovered t ps i = specCovered t ps (i + 1)"
      using skip by (simp add: specCovered_step)
    then show ?thesis
      unfolding segLoop_skip [OF skip] using Suc.hyps(1) [OF n] by simp
  next
    case last
    have "specCovered t ps (i + 1) = []"
      using specCovered_future [OF srt last(4)] .
    then have "specCovered t ps i = [i]"
      using last by (simp add: specCovered_step)
    then show ?thesis
      unfolding segLoop_last [OF last] by simp
  next
    case more
    have "specCovered t ps i = i # specCovered t ps (i + 1)"
      using more by (simp add: specCovered_step)
    then show ?thesis
      unfolding segLoop_next [OF more] using Suc.hyps(1) [OF n] by simp
  qed
qed

lemma sortByTime_sorted: "sorted (map pt_t (sortByTime ps))"
  by (simp add: sortByTime_def)

lemma sortByTime_mset: "mset (sortByTime ps) = mset ps"
  by (simp add: sortByTime_def)

lemma sortByTime_length: "length (sortByTime ps) = length ps"
  by (simp add: sortByTime_def)

lemma sortByTime_hd_least:
  assumes "p \<in> set ps"
  shows "pt_t (hd (sortByTime ps)) \<le> pt_t p"
proof -
  from assms have "p \<in> set (sortByTime ps)" by (simp add: sortByTime_def)
  then obtain j where j: "j < length (sortByTime ps)" "sortByTime ps ! j = p"
    by (auto simp: in_set_conv_nth)
  then have "sortByTime ps \<noteq> []" by auto
  then have "hd (sortByTime ps) = sortByTime ps ! 0" by (simp add: hd_conv_nth)
  with sorted_times_mono [OF sortByTime_sorted, of 0 j ps] j show ?thesis by simp
qed

lemma segLoop_trace:
  "snd (calculateTraced body t) =
     (if usesGraph body \<and> t > 0
      then snd (snd (segLoop (sortByTime (the (graphPoints body))) t 0 (x0 body, 0, [])))
      else [])"
  by (simp add: calculateTraced_def Let_def split: prod.splits)

lemma calculate_position:
  assumes "usesGraph body" "t > 0"
  shows "st_x (calculateStateAtTime body t) =
           fst (segLoop (sortByTime (the (graphPoints body))) t 0 (x0 body, 0, []))"
  using assms by (simp add: calculateStateAtTime_def calculateTraced_def Let_def split: prod.splits)

section \<open>Piecewise velocity\<close>

text \<open>
  Claim C1. Let a body be in piecewise-velocity mode: the flag is set and the velocity
  graph \<open>ps\<close> has at least two control points. The calculator works on the points sorted
  ascending by time (a permutation of \<open>ps\<close>), whose first point is an earliest one.
  For \<open>t \<le> 0\<close> it returns the position \<open>x0\<close> and the velocity of that first point.
  For \<open>t > 0\<close> the returned position is \<open>x0\<close> plus the sum, over the segments in sorted
  order that start before \<open>t\<close> and have \<open>dt = min(t\<^sub>i\<^sub>+\<^sub>1, t) - t\<^sub>i > 0\<close>, of the trapezoid
  area \<open>((v\<^sub>i + v_end)/2) \<sqdot> dt\<close> with \<open>v_end = v\<^sub>i + slope \<sqdot> dt\<close>; and no segment is
  accumulated after a segment whose end has reached \<open>t\<close>. In particular, for the points
  (0,0), (10,10), (20,0) and \<open>x0 = 0\<close> the position is 50 at time 10 and 100 at time 20.
\<close>

theorem piecewise_position_is_trapezoid_sum:
  "(isCustomGraph body = Some True \<and> graphPoints body = Some ps \<and> length ps \<ge> 2 \<longrightarrow>
      sorted (map pt_t (sortByTime ps)) \<and> mset (sortByTime ps) = mset ps
      \<and> (\<forall>p \<in> set ps. pt_t (sortByTime ps ! 0) \<le> pt_t p)
      \<and> (t \<le> 0 \<longrightarrow>
           calculateStateAtTime body t = \<lparr>st_x = x0 body, st_v = pt_v (sortByTime ps ! 0)\<rparr>)
      \<and> (t > 0 \<longrightarrow>
           st_x (calculateStateAtTime body t) = specPosition (x0 body) t (sortByTime ps)
           \<and> (\<forall>j \<in> set (specCovered t (sortByTime ps) 0).
                \<forall>i < j. pt_t (sortByTime ps ! (i + 1)) < t)))
   \<and> (isCustomGraph b = Some True
        \<and> graphPoints b = Some [\<lparr>pt_t = 0, pt_v = 0\<rparr>, \<lparr>pt_t = 10, pt_v = 10\<rparr>, \<lparr>pt_t = 20, pt_v = 0\<rparr>]
        \<and> x0 b = 0 \<longrightarrow>
      st_x (calculateStateAtTime b 10) = 50 \<and> st_x (calculateStateAtTime b 20) = 100)"
proof (intro conjI impI)
  assume mode: "isCustomGraph body = Some True \<and> graphPoints body = Some ps \<and> length ps \<ge> 2"
  then have ug: "usesGraph body" and gp: "the (graphPoints body) = ps"
    by (simp_all add: usesGraph_def)
  show "sorted (map pt_t (sortByTime ps))" by (rule sortByTime_sorted)
  show "mset (sortByTime ps) = mset ps" by (rule sortByTime_mset)
  show "\<forall>p \<in> set ps. pt_t (sortByTime ps ! 0) \<le> pt_t p"
  proof
    fix p assume p: "p \<in> set ps"
    then have "sortByTime ps \<noteq> []" using sortByTime_length [of ps] by auto
    then have "hd (sortByTime ps) = sortByTime ps ! 0" by (simp add: hd_conv_nth)
    with sortByTime_hd_least [OF p] show "pt_t (sortByTime ps ! 0) \<le> pt_t p" by simp
  qed
  {
    assume "t \<le> 0"
    with ug gp
    show "calculateStateAtTime body t = \<lparr>st_x = x0 body, st_v = pt_v (sortByTime ps ! 0)\<rparr>"
      by (simp add: calculateStateAtTime_def calculateTraced_def Let_def)
  }
  {
    assume t: "t > 0"
    show "st_x (calculateStateAtTime body t) = specPosition (x0 body) t (sortByTime ps)"
      unfolding calculate_position [OF ug t] gp specPosition_def
      by (rule segLoop_position [OF sortByTime_sorted])
    show "\<forall>j \<in> set (specCovered t (sortByTime ps) 0). \<forall>i < j. pt_t (sortByTime ps ! (i + 1)) < t"
    proof (intro ballI allI impI)
      fix j i assume j: "j \<in> set (specCovered t (sortByTime ps) 0)" and i: "i < j"
      from j have "j < length (sortByTime ps)" "pt_t (sortByTime ps ! j) < t"
        by (auto simp: specCovered_def)
      moreover from i have "i + 1 \<le> j" by simp
      ultimately show "pt_t (sortByTime ps ! (i + 1)) < t"
        using sorted_times_mono [OF sortByTime_sorted, of "i + 1" j ps] by simp
    qed
  }
next
  assume "isCustomGraph b = Some True
        \<and> graphPoints b = Some [\<lparr>pt_t = 0, pt_v = 0\<rparr>, \<lparr>pt_t = 10, pt_v = 10\<rparr>, \<lparr>pt_t = 20, pt_v = 0\<rparr>]
        \<and> x0 b = 0"
  then show "st_x (calculateStateAtTime b 10) = 50"
    by (simp add: calculateStateAtTime_def calculateTraced_def usesGraph_def sortByTime_def
        segLoop.simps Let_def)
next
  assume "isCustomGraph b = Some True
        \<and> graphPoints b = Some [\<lparr>pt_t = 0, pt_v = 0\<rparr>, \<lparr>pt_t = 10, pt_v = 10\<rparr>, \<lparr>pt_t = 20, pt_v = 0\<rparr>]
        \<and> x0 b = 0"
  then show "st_x (calculateStateAtTime b 20) = 100"
    by (simp add: calculateStateAtTime_def calculateTraced_def usesGraph_def sortByTime_def
        segLoop.simps Let_def)
qed

theorem piecewise_position_is_trapezoid_sum_witness:
  "isCustomGraph (graphBody trianglePoints) = Some True
   \<and> graphPoints (graphBody trianglePoints) = Some trianglePoints
   \<and> length trianglePoints \<ge> 2
   \<and> sortByTime trianglePoints =
        [\<lparr>pt_t = 0, pt_v = 0\<rparr>, \<lparr>pt_t = 10, pt_v = 10\<rparr>, \<lparr>pt_t = 20, pt_v = 0\<rparr>]
   \<and> calculateStateAtTime (graphBody trianglePoints) 0 = \<lparr>st_x = 0, st_v = 0\<rparr>
   \<and> st_x (calculateStateAtTime (graphBody trianglePoints) 15) =
        specPosition 0 15 (sortByTime trianglePoints)
   \<and> specPosition 0 15 (sortByTime trianglePoints) = 175 / 2
   \<and> st_x (calculateStateAtTime (graphBody trianglePoints) 10) = 50
   \<and> st_x (calculateStateAtTime (graphBody trianglePoints) 20) = 100"
proof -
  have srt: "sortByTime trianglePoints =
        [\<lparr>pt_t = 0, pt_v = 0\<rparr>, \<lparr>pt_t = 10, pt_v = 10\<rparr>, \<lparr>pt_t = 20, pt_v = 0\<rparr>]"
    by (simp add: sortByTime_def trianglePoints_def)
  have mode: "isCustomGraph (graphBody trianglePoints) = Some True
      \<and> graphPoints (graphBody trianglePoints) = Some trianglePoints
      \<and> length trianglePoints \<ge> 2"
    by (simp add: graphBody_def trianglePoints_def)
  have x: "x0 (graphBody trianglePoints) = 0"
    by (simp add: graphBody_def INITIAL_BODY_A_def)
  have ip: "specPosition 0 15 (sortByTime trianglePoints) = 175 / 2"
    unfolding srt
    by (simp add: specPosition_def specCovered_def specTrapezoid_def specEndVelocity_def
        specDt_def upt_conv_Cons)
  have ip10: "specPosition 0 10 (sortByTime trianglePoints) = 50"
    unfolding srt
    by (simp add: specPosition_def specCovered_def specTrapezoid_def specEndVelocity_def
        specDt_def upt_conv_Cons)
  have ip20: "specPosition 0 20 (sortByTime trianglePoints) = 100"
    unfolding srt
    by (simp add: specPosition_def specCovered_def specTrapezoid_def specEndVelocity_def
        specDt_def upt_conv_Cons)
  show ?thesis
    using piecewise_position_is_trapezoid_sum
            [of "graphBody trianglePoints" trianglePoints 0 "graphBody trianglePoints"]
          piecewise_position_is_trapezoid_sum
            [of "graphBody trianglePoints" trianglePoints 15 "graphBody trianglePoints"]
          piecewise_position_is_trapezoid_sum
            [of "graphBody trianglePoints" trianglePoints 10 "graphBody trianglePoints"]
          piecewise_position_is_trapezoid_sum
            [of "graphBody trianglePoints" trianglePoints 20 "graphBody trianglePoints"]
          mode x ip ip10 ip20
    by (simp add: srt)
qed

section \<open>Degenerate segments\<close>

text \<open>
  Claim C8. For every velocity graph (with or without duplicate time values) and every
  query time \<open>t\<close>, no division performed by the calculator has the divisor zero. When the
  loop reaches a degenerate segment (\<open>t\<^sub>i\<^sub>+\<^sub>1 = t\<^sub>i\<close>) that starts before \<open>t\<close>, it goes on to
  the next segment with its position, its velocity and the record of divisors unchanged:
  the \<open>dt \<le> 0\<close> guard skips the segment before the slope is computed.
\<close>

theorem degenerate_segment_never_divides:
  "0 \<notin> set (snd (calculateTraced body t))
   \<and> (i < length ps - 1 \<and> pt_t (ps ! i) < t \<and> pt_t (ps ! (i + 1)) = pt_t (ps ! i) \<longrightarrow>
        segLoop ps t i (x, v, ds) = segLoop ps t (i + 1) (x, v, ds))"
proof (intro conjI impI)
  have "\<forall>d \<in> set (snd (snd (segLoop sp t 0 (x0 body, 0, [])))). d > 0" for sp
    by (rule segLoop_divisors_pos) simp
  then have "\<forall>d \<in> set (snd (calculateTraced body t)). d > 0"
    by (auto simp: segLoop_trace)
  then show "0 \<notin> set (snd (calculateTraced body t))" by auto
next
  assume "i < length ps - 1 \<and> pt_t (ps ! i) < t \<and> pt_t (ps ! (i + 1)) = pt_t (ps ! i)"
  then show "segLoop ps t i (x, v, ds) = segLoop ps t (i + 1) (x, v, ds)"
    by (intro segLoop_skip) (simp_all add: specDt_def)
qed

theorem degenerate_segment_never_divides_witness:
  "1 < length duplicatePoints - 1 \<and> pt_t (duplicatePoints ! 1) < 7
   \<and> pt_t (duplicatePoints ! (1 + 1)) = pt_t (duplicatePoints ! 1)
   \<and> segLoop duplicatePoints 7 1 (25 / 2, 5, [5]) = segLoop duplicatePoints 7 (1 + 1) (25 / 2, 5, [5])
   \<and> snd (calculateTraced (graphBody duplicatePoints) 7) = [5, 5]
   \<and> 0 \<notin> set (snd (calculateTraced (graphBody duplicatePoints) 7))"
proof -
  have h: "1 < length duplicatePoints - 1 \<and> pt_t (duplicatePoints ! 1) < 7
      \<and> pt_t (duplicatePoints ! (1 + 1)) = pt_t (duplicatePoints ! 1)"
    by (simp add: duplicatePoints_def)
  have tr: "snd (calculateTraced (graphBody duplicatePoints) 7) = [5, 5]"
    by (simp add: calculateTraced_def usesGraph_def graphBody_def duplicatePoints_def
        sortByTime_def segLoop.simps Let_def INITIAL_BODY_A_def)
  show ?thesis
    using degenerate_segment_never_divides
            [of "graphBody duplicatePoints" 7 1 duplicatePoints "25 / 2" 5 "[5]"] h tr
    by simp
qed

section \<open>Flag set without a usable graph\<close>

text \<open>
  Claim C10. If the custom-graph flag of a body is set but its velocity graph is absent or
  has fewer than two control points, then for every \<open>t\<close> the calculator returns the
  position \<open>x0 + v0 t + 0.5 a t\<^sup>2\<close> and the velocity \<open>v0 + a t\<close>, the same state as for the
  body with the flag cleared, and it performs no division.
\<close>

theorem flag_without_graph_falls_back:
  assumes "isCustomGraph body = Some True"
    and "graphPoints body = None \<or> (\<exists>ps. graphPoints body = Some ps \<and> length ps < 2)"
  shows "calculateStateAtTime body t =
           \<lparr>st_x = x0 body + v0 body * t + 0.5 * a_acc body * t * t,
            st_v = v0 body + a_acc body * t\<rparr>
       \<and> calculateStateAtTime body t = calculateStateAtTime (body\<lparr>isCustomGraph := Some False\<rparr>) t
       \<and> snd (calculateTraced body t) = []"
  using assms by (auto simp: calculateStateAtTime_def calculateTraced_def usesGraph_def)

theorem flag_without_graph_falls_back_witness:
  "isCustomGraph (graphBody [\<lparr>pt_t = 3, pt_v = 4\<rparr>]) = Some True
   \<and> graphPoints (graphBody [\<lparr>pt_t = 3, pt_v = 4\<rparr>]) = Some [\<lparr>pt_t = 3, pt_v = 4\<rparr>]
   \<and> length [\<lparr>pt_t = 3, pt_v = 4\<rparr>] < 2
   \<and> calculateStateAtTime (graphBody [\<lparr>pt_t = 3, pt_v = 4\<rparr>]) 2 = \<lparr>st_x = 10, st_v = 5\<rparr>"
  using flag_without_graph_falls_back [of "graphBody [\<lparr>pt_t = 3, pt_v = 4\<rparr>]" 2]
  by (simp add: graphBody_def INITIAL_BODY_A_def)

section \<open>The sampling loop\<close>

lemma toFixed1_grid: "toFixed1 (real k * TIME_STEP) = real k * TIME_STEP"
proof -
  have "\<lfloor>real k + 1 / 2\<rfloor> = int k" by linarith
  then show ?thesis by (simp add: toFixed1_def TIME_STEP_def)
qed

lemma simLoop_exit:
  "\<not> t \<le> MAX_TIME \<Longrightarrow> simLoop bodyA bodyB t (data, meet, foundMeet) = (data, meet, foundMeet)"
  by (simp add: simLoop.simps)

lemma specDetectCrossing_snoc:
  "specDetectCrossing (xs @ [y]) =
     (case specDetectCrossing xs of
        Some m \<Rightarrow> Some m
      | None \<Rightarrow> if xs \<noteq> [] \<and> specSignFlips (last xs) y
                then Some (step_t y, st_x (step_bodyA y)) else None)"
  by (induction xs rule: specDetectCrossing.induct) auto

lemma simLoop_unfold:
  "t \<le> MAX_TIME \<Longrightarrow>
   simLoop bodyA bodyB t (data, meet, foundMeet) =
     simLoop bodyA bodyB (t + TIME_STEP)
       (data @ [\<lparr>step_t = toFixed1 t, step_bodyA = calculateStateAtTime bodyA t,
                 step_bodyB = calculateStateAtTime bodyB t\<rparr>],
        if \<not> foundMeet \<and> t > 0 \<and>
           ((st_x (calculateStateAtTime bodyA (t - TIME_STEP))
               < st_x (calculateStateAtTime bodyB (t - TIME_STEP))
             \<and> st_x (calculateStateAtTime bodyA t) \<ge> st_x (calculateStateAtTime bodyB t))
            \<or> (st_x (calculateStateAtTime bodyA (t - TIME_STEP))
               > st_x (calculateStateAtTime bodyB (t - TIME_STEP))
             \<and> st_x (calculateStateAtTime bodyA t) \<le> st_x (calculateStateAtTime bodyB t)))
        then Some (t, st_x (calculateStateAtTime bodyA t)) else meet,
        if \<not> foundMeet \<and> t > 0 \<and>
           ((st_x (calculateStateAtTime bodyA (t - TIME_STEP))
               < st_x (calculateStateAtTime bodyB (t - TIME_STEP))
             \<and> st_x (calculateStateAtTime bodyA t) \<ge> st_x (calculateStateAtTime bodyB t))
            \<or> (st_x (calculateStateAtTime bodyA (t - TIME_STEP))
               > st_x (calculateStateAtTime bodyB (t - TIME_STEP))
             \<and> st_x (calculateStateAtTime bodyA t) \<le> st_x (calculateStateAtTime bodyB t)))
        then True else foundMeet)"
  by (subst simLoop.simps) (simp add: Let_def)

lemma simLoop_step_grid:
  assumes le: "real k * TIME_STEP \<le> MAX_TIME"
    and fm: "foundMeet = (meet \<noteq> None)"
    and mt: "meet = specDetectCrossing (map (gridSample bodyA bodyB) [0..<k])"
  shows "simLoop bodyA bodyB (real k * TIME_STEP) (map (gridSample bodyA bodyB) [0..<k], meet, foundMeet)
       = simLoop bodyA bodyB (real (Suc k) * TIME_STEP)
           (map (gridSample bodyA bodyB) [0..<Suc k],
            specDetectCrossing (map (gridSample bodyA bodyB) [0..<Suc k]),
            specDetectCrossing (map (gridSample bodyA bodyB) [0..<Suc k]) \<noteq> None)"
proof -
  let ?g = "gridSample bodyA bodyB"
  let ?t = "real k * TIME_STEP"
  let ?flip = "(st_x (calculateStateAtTime bodyA (?t - TIME_STEP))
               < st_x (calculateStateAtTime bodyB (?t - TIME_STEP))
             \<and> st_x (calculateStateAtTime bodyA ?t) \<ge> st_x (calculateStateAtTime bodyB ?t))
            \<or> (st_x (calculateStateAtTime bodyA (?t - TIME_STEP))
               > st_x (calculateStateAtTime bodyB (?t - TIME_STEP))
             \<and> st_x (calculateStateAtTime bodyA ?t) \<le> st_x (calculateStateAtTime bodyB ?t))"
  have t: "?t + TIME_STEP = real (Suc k) * TIME_STEP"
    by (simp add: algebra_simps)
  have prev: "?t - TIME_STEP = real (k - 1) * TIME_STEP" if "k > 0"
    using that by (simp add: algebra_simps of_nat_diff)
  have pos: "?t > 0 \<longleftrightarrow> k > 0"
    by (simp add: TIME_STEP_def)
  have lst: "last (map ?g [0..<k]) = ?g (k - 1)" if "k > 0"
    using that by (cases k) (simp_all add: last_map)
  have flip: "specSignFlips (?g (k - 1)) (?g k) \<longleftrightarrow> ?flip" if "k > 0"
    by (simp add: specSignFlips_def gridSample_def prev [OF that])
  have data: "map ?g [0..<k] @ [\<lparr>step_t = toFixed1 ?t,
                 step_bodyA = calculateStateAtTime bodyA ?t,
                 step_bodyB = calculateStateAtTime bodyB ?t\<rparr>] = map ?g [0..<Suc k]"
    by (simp add: gridSample_def toFixed1_grid)
  have snoc: "specDetectCrossing (map ?g [0..<Suc k]) =
     (case meet of
        Some m \<Rightarrow> Some m
      | None \<Rightarrow> if k > 0 \<and> specSignFlips (?g (k - 1)) (?g k)
                then Some (?t, st_x (calculateStateAtTime bodyA ?t)) else None)"
    using specDetectCrossing_snoc [of "map ?g [0..<k]" "?g k"] lst mt
    by (auto simp: gridSample_def split: option.splits)
  have m: "(if \<not> foundMeet \<and> ?t > 0 \<and> ?flip
            then Some (?t, st_x (calculateStateAtTime bodyA ?t)) else meet)
           = specDetectCrossing (map ?g [0..<Suc k])"
    unfolding snoc using fm flip by (cases meet) (auto simp: pos)
  have f: "(if \<not> foundMeet \<and> ?t > 0 \<and> ?flip then True else foundMeet)
           = (specDetectCrossing (map ?g [0..<Suc k]) \<noteq> None)"
    unfolding snoc using fm flip by (cases meet) (auto simp: pos)
  show ?thesis
    unfolding simLoop_unfold [OF le] data t m f ..
qed

lemma simLoop_grid:
  assumes "k \<le> 201"
    and "foundMeet = (meet \<noteq> None)"
    and "meet = specDetectCrossing (map (gridSample bodyA bodyB) [0..<k])"
  shows "simLoop bodyA bodyB (real k * TIME_STEP) (map (gridSample bodyA bodyB) [0..<k], meet, foundMeet)
       = (map (gridSample bodyA bodyB) [0..<201],
          specDetectCrossing (map (gridSample bodyA bodyB) [0..<201]),
          specDetectCrossing (map (gridSample bodyA bodyB) [0..<201]) \<noteq> None)"
  using assms
proof (induction "201 - k" arbitrary: k meet foundMeet)
  case 0
  then have k: "k = 201" by simp
  have "\<not> real k * TIME_STEP \<le> MAX_TIME"
    by (simp add: k TIME_STEP_def MAX_TIME_def)
  then show ?case using 0 k by (simp add: simLoop_exit)
next
  case (Suc n)
  then have k: "k \<le> 200" by simp
  then have "real k \<le> 200" by simp
  then have le: "real k * TIME_STEP \<le> MAX_TIME"
    by (simp add: TIME_STEP_def MAX_TIME_def)
  have n: "n = 201 - Suc k" using Suc.hyps(2) by simp
  have "Suc k \<le> 201" using k by simp
  from Suc.hyps(1) [OF n this refl refl] 
  show ?case
    unfolding simLoop_step_grid [OF le Suc.prems(2) Suc.prems(3)] .
qed

lemma simulate_grid:
  "simulate bodyA bodyB =
     (map (gridSample bodyA bodyB) [0..<201],
      specDetectCrossing (map (gridSample bodyA bodyB) [0..<201]))"
  using simLoop_grid [of 0 False None bodyA bodyB] by (simp add: simulate_def)


lemma specDetectCrossing_upt:
  "i + 1 < n \<Longrightarrow>
   specDetectCrossing (map f [i..<n]) =
     (if specSignFlips (f i) (f (i + 1)) then Some (step_t (f (i + 1)), st_x (step_bodyA (f (i + 1))))
      else specDetectCrossing (map f [i + 1..<n]))"
  by (simp add: upt_conv_Cons)

lemma specDetectCrossing_short:
  "\<not> i + 1 < n \<Longrightarrow> specDetectCrossing (map f [i..<n]) = None"
  by (cases "i < n") (simp_all add: upt_conv_Cons)

lemma specDetectCrossing_none:
  assumes "\<And>j. i \<le> j \<Longrightarrow> j + 1 < n \<Longrightarrow> \<not> specSignFlips (f j) (f (j + 1))"
  shows "specDetectCrossing (map f [i..<n]) = None"
  using assms
proof (induction "n - i" arbitrary: i)
  case 0
  then show ?case by (simp add: specDetectCrossing_short)
next
  case (Suc m)
  show ?case
  proof (cases "i + 1 < n")
    case True
    have "m = n - (i + 1)" using Suc.hyps(2) by simp
    then have "specDetectCrossing (map f [i + 1..<n]) = None"
      using Suc.hyps(1) Suc.prems by simp
    with True Suc.prems [of i] show ?thesis
      by (simp add: specDetectCrossing_upt)
  next
    case False
    then show ?thesis by (simp add: specDetectCrossing_short)
  qed
qed

lemma specDetectCrossing_first:
  assumes "i \<le> k" "k + 1 < n"
    and "\<And>j. i \<le> j \<Longrightarrow> j < k \<Longrightarrow> \<not> specSignFlips (f j) (f (j + 1))"
    and "specSignFlips (f k) (f (k + 1))"
  shows "specDetectCrossing (map f [i..<n]) =
           Some (step_t (f (k + 1)), st_x (step_bodyA (f (k + 1))))"
  using assms
proof (induction "k - i" arbitrary: i)
  case 0
  then have "i = k" by simp
  with 0 show ?case by (simp add: specDetectCrossing_upt)
next
  case (Suc m)
  then have lt: "i < k" by simp
  have "m = k - (i + 1)" using Suc.hyps(2) by simp
  then have "specDetectCrossing (map f [i + 1..<n]) =
           Some (step_t (f (k + 1)), st_x (step_bodyA (f (k + 1))))"
    using Suc.hyps(1) Suc.prems lt by simp
  moreover have "\<not> specSignFlips (f i) (f (i + 1))" using Suc.prems(3) [of i] lt by simp
  moreover have "i + 1 < n" using lt Suc.prems(2) by simp
  ultimately show ?case by (simp add: specDetectCrossing_upt)
qed

lemma gridSample_constant_x:
  "\<not> usesGraph body \<Longrightarrow>
   st_x (calculateStateAtTime body (real k * TIME_STEP)) =
     x0 body + v0 body * (real k / 10) + a_acc body * (real k / 10) * (real k / 10) / 2"
  by (simp add: calculateStateAtTime_def calculateTraced_def TIME_STEP_def)

lemma no_flip_before_crossing:
  "r \<le> 70 \<Longrightarrow>
   \<not> (r / 2 < 50 - r / 5 \<and> 50 - (r + 1) / 5 \<le> (r + 1) / 2
      \<or> 50 - r / 5 < r / 2 \<and> (r + 1) / 2 \<le> 50 - (r + 1) / 5)" for r :: real
  by (auto simp: field_simps)









section \<open>Crossing detection\<close>



text \<open>
  Claim C4. For body A with \<open>x0 = 0\<close>, \<open>v0 = 5\<close>, \<open>a = 0\<close> and body B with \<open>x0 = 50\<close>,
  \<open>v0 = -2\<close>, \<open>a = 0\<close>, both in constant-acceleration mode, the sampling effect with step
  0.1 over the horizon of 20 s stores a meeting point whose time is within one step of
  the analytic crossing time \<open>50/7\<close>.
\<close>

theorem crossing_detected_near_analytic_time:
  assumes "\<not> usesGraph bodyA" "x0 bodyA = 0" "v0 bodyA = 5" "a_acc bodyA = 0"
    and "\<not> usesGraph bodyB" "x0 bodyB = 50" "v0 bodyB = - 2" "a_acc bodyB = 0"
  shows "\<exists>t x. snd (simulate bodyA bodyB) = Some (t, x) \<and> \<bar>t - 50 / 7\<bar> \<le> TIME_STEP"
proof -
  let ?g = "gridSample bodyA bodyB"
  have xa: "st_x (step_bodyA (?g j)) = real j / 2" for j
    using assms by (simp add: gridSample_def gridSample_constant_x)
  have xb: "st_x (step_bodyB (?g j)) = 50 - real j / 5" for j
    using assms by (simp add: gridSample_def gridSample_constant_x)
  have suc: "real (j + 1) = real j + 1" for j by simp
  have before: "\<not> specSignFlips (?g j) (?g (j + 1))" if "j < 71" for j
  proof -
    from that have "real j \<le> 70" by simp
    then show ?thesis unfolding specSignFlips_def xa xb suc by (rule no_flip_before_crossing)
  qed
  have at: "specSignFlips (?g 71) (?g (71 + 1))"
    unfolding specSignFlips_def xa xb by simp
  have "specDetectCrossing (map ?g [0..<201]) =
          Some (step_t (?g (71 + 1)), st_x (step_bodyA (?g (71 + 1))))"
    by (rule specDetectCrossing_first [OF _ _ before at]) simp_all
  then have "snd (simulate bodyA bodyB) = Some (36 / 5, 36)"
    unfolding xa by (simp add: simulate_grid gridSample_def TIME_STEP_def)
  moreover have "\<bar>36 / 5 - 50 / 7 :: real\<bar> \<le> TIME_STEP"
    by (simp add: TIME_STEP_def)
  ultimately show ?thesis by blast
qed

theorem crossing_detected_near_analytic_time_witness:
  "\<not> usesGraph INITIAL_BODY_A \<and> x0 INITIAL_BODY_A = 0 \<and> v0 INITIAL_BODY_A = 5
   \<and> a_acc INITIAL_BODY_A = 0
   \<and> \<not> usesGraph INITIAL_BODY_B \<and> x0 INITIAL_BODY_B = 50 \<and> v0 INITIAL_BODY_B = - 2
   \<and> a_acc INITIAL_BODY_B = 0
   \<and> (\<exists>t x. snd (simulate INITIAL_BODY_A INITIAL_BODY_B) = Some (t, x)
        \<and> \<bar>t - 50 / 7\<bar> \<le> TIME_STEP)"
proof -
  have h: "\<not> usesGraph INITIAL_BODY_A" "x0 INITIAL_BODY_A = 0" "v0 INITIAL_BODY_A = 5"
    "a_acc INITIAL_BODY_A = 0"
    "\<not> usesGraph INITIAL_BODY_B" "x0 INITIAL_BODY_B = 50" "v0 INITIAL_BODY_B = - 2"
    "a_acc INITIAL_BODY_B = 0"
    by (simp_all add: INITIAL_BODY_A_def INITIAL_BODY_B_def usesGraph_def)
  from crossing_detected_near_analytic_time [OF h] h show ?thesis by simp
qed

text \<open>
  Claim C9. For body A with \<open>x0 = 0\<close>, \<open>v0 = 5\<close>, \<open>a = 0\<close> and body B with \<open>x0 = 100\<close>,
  \<open>v0 = 10\<close>, \<open>a = 0\<close>, both in constant-acceleration mode, the sampling effect over the
  full horizon stores no meeting point: the stored value is the ordinary value \<open>None\<close>
  (\<^verbatim>\<open>null\<close>) of the result, not a failure.
\<close>

theorem no_crossing_is_none:
  assumes "\<not> usesGraph bodyA" "x0 bodyA = 0" "v0 bodyA = 5" "a_acc bodyA = 0"
    and "\<not> usesGraph bodyB" "x0 bodyB = 100" "v0 bodyB = 10" "a_acc bodyB = 0"
  shows "snd (simulate bodyA bodyB) = None"
proof -
  let ?g = "gridSample bodyA bodyB"
  have xa: "st_x (step_bodyA (?g j)) = real j / 2" for j
    using assms by (simp add: gridSample_def gridSample_constant_x)
  have xb: "st_x (step_bodyB (?g j)) = 100 + real j" for j
    using assms by (simp add: gridSample_def gridSample_constant_x)
  have "\<not> specSignFlips (?g j) (?g (j + 1))" for j
    unfolding specSignFlips_def xa xb by simp
  then have "specDetectCrossing (map ?g [0..<201]) = None"
    by (rule specDetectCrossing_none)
  then show ?thesis by (simp add: simulate_grid)
qed

theorem no_crossing_is_none_witness:
  "\<not> usesGraph INITIAL_BODY_A \<and> x0 INITIAL_BODY_A = 0 \<and> v0 INITIAL_BODY_A = 5
   \<and> a_acc INITIAL_BODY_A = 0
   \<and> \<not> usesGraph (INITIAL_BODY_B\<lparr>x0 := 100, v0 := 10\<rparr>)
   \<and> x0 (INITIAL_BODY_B\<lparr>x0 := 100, v0 := 10\<rparr>) = 100
   \<and> v0 (INITIAL_BODY_B\<lparr>x0 := 100, v0 := 10\<rparr>) = 10
   \<and> a_acc (INITIAL_BODY_B\<lparr>x0 := 100, v0 := 10\<rparr>) = 0
   \<and> snd (simulate INITIAL_BODY_A (INITIAL_BODY_B\<lparr>x0 := 100, v0 := 10\<rparr>)) = None"
proof -
  have h: "\<not> usesGraph INITIAL_BODY_A" "x0 INITIAL_BODY_A = 0" "v0 INITIAL_BODY_A = 5"
    "a_acc INITIAL_BODY_A = 0"
    "\<not> usesGraph (INITIAL_BODY_B\<lparr>x0 := 100, v0 := 10\<rparr>)"
    "x0 (INITIAL_BODY_B\<lparr>x0 := 100, v0 := 10\<rparr>) = 100"
    "v0 (INITIAL_BODY_B\<lparr>x0 := 100, v0 := 10\<rparr>) = 10"
    "a_acc (INITIAL_BODY_B\<lparr>x0 := 100, v0 := 10\<rparr>) = 0"
    by (simp_all add: INITIAL_BODY_A_def INITIAL_BODY_B_def usesGraph_def)
  from no_crossing_is_none [OF h] h show ?thesis by simp
qed

section \<open>Playback clock\<close>

lemmas clock_defs = setIsPlaying_def animate_def tick_def togglePlay_def handleReset_def
  seek_def initialClock_def MAX_TIME_def Let_def

lemma stale_tick:
  "requestRef s = Some c \<Longrightarrow> c + 0.05 < MAX_TIME \<Longrightarrow> tick (tick s) = tick s"
  by (simp add: tick_def animate_def Let_def)

lemma final_tick:
  "requestRef s = Some c \<Longrightarrow> c + 0.05 \<ge> MAX_TIME \<Longrightarrow>
   currentTime (tick s) = MAX_TIME \<and> \<not> isPlaying (tick s)"
  by (simp add: tick_def animate_def Let_def setIsPlaying_def)

lemma reachable_cursor_bounded:
  "reachable s \<Longrightarrow>
   0 \<le> currentTime s \<and> currentTime s \<le> MAX_TIME
   \<and> (\<forall>c. requestRef s = Some c \<longrightarrow> 0 \<le> c \<and> c \<le> MAX_TIME)"
proof (induction rule: reachable.induct)
  case reach_initial
  then show ?case by (simp add: initialClock_def MAX_TIME_def)
next
  case (reach_toggle s)
  then show ?case by (auto simp: togglePlay_def setIsPlaying_def)
next
  case (reach_reset s)
  then show ?case by (auto simp: handleReset_def setIsPlaying_def MAX_TIME_def)
next
  case (reach_seek s val)
  then show ?case by (auto simp: seek_def setIsPlaying_def)
next
  case (reach_tick s)
  then show ?case
    by (auto simp: tick_def animate_def Let_def setIsPlaying_def MAX_TIME_def split: option.splits)
qed

text \<open>
  Claim C7 says that, while the clock is playing, every scheduler tick advances the
  cursor by 0.05 s, so that repeated ticks strictly increase the current time until it is
  clamped at \<open>MAX_TIME\<close>. The code does not do that. Every tick of one run computes
  \<open>currentTime + 0.05\<close> from the \<open>currentTime\<close> that the callback captured when playing
  started: from the initial clock, pressing play and letting the scheduler tick once
  moves the cursor from 0 to 0.05, and the second tick leaves it at 0.05 with the clock
  still playing. (What holds is in the lemmas above: the run ends with the cursor at
  \<open>MAX_TIME\<close> and the clock paused only if the captured time plus 0.05 reaches
  \<open>MAX_TIME\<close>, and no reachable state has a cursor beyond \<open>MAX_TIME\<close>.)
\<close>

theorem second_tick_leaves_cursor:
  "isPlaying (togglePlay initialClock) \<and> currentTime (togglePlay initialClock) = 0
   \<and> isPlaying (tick (togglePlay initialClock))
   \<and> currentTime (tick (togglePlay initialClock)) = 0.05
   \<and> isPlaying (tick (tick (togglePlay initialClock)))
   \<and> currentTime (tick (tick (togglePlay initialClock))) = 0.05"
  by (simp add: clock_defs)

text \<open>
  Claim C5, as stated: in both clock states, \<open>seek(t)\<close> sets the cursor to
  \<open>clamp(t, 0, T_max)\<close> and leaves the play/pause state unchanged. It fails for a
  playing clock: seeking to 5 pauses it.
\<close>

theorem seek_keeps_play_state_counterexample:
  "\<not> (currentTime (seek 5 (togglePlay initialClock)) = specClamp 5 0 MAX_TIME
      \<and> isPlaying (seek 5 (togglePlay initialClock)) = isPlaying (togglePlay initialClock))"
  by (simp add: clock_defs specClamp_def)

text \<open>
  Claim C5, amended. In both clock states, the seek handler sets the cursor to the value
  it receives and leaves the clock paused; for every value between 0 and \<open>MAX_TIME\<close>,
  which are the values that the range control delivers, this cursor is
  \<open>clamp(t, 0, T_max)\<close>.
\<close>

theorem seek_sets_cursor_and_pauses:
  "currentTime (seek val s) = val \<and> \<not> isPlaying (seek val s)
   \<and> (0 \<le> val \<and> val \<le> MAX_TIME \<longrightarrow> currentTime (seek val s) = specClamp val 0 MAX_TIME)"
  by (auto simp: seek_def setIsPlaying_def specClamp_def)

theorem seek_sets_cursor_and_pauses_witness:
  "(0::real) \<le> 5 \<and> 5 \<le> MAX_TIME
   \<and> isPlaying (togglePlay initialClock)
   \<and> currentTime (seek 5 (togglePlay initialClock)) = specClamp 5 0 MAX_TIME
   \<and> \<not> isPlaying (seek 5 (togglePlay initialClock))
   \<and> \<not> isPlaying initialClock
   \<and> currentTime (seek 5 initialClock) = 5
   \<and> \<not> isPlaying (seek 5 initialClock)"
  using seek_sets_cursor_and_pauses [of 5 "togglePlay initialClock"]
        seek_sets_cursor_and_pauses [of 5 initialClock]
  by (simp add: MAX_TIME_def togglePlay_def initialClock_def setIsPlaying_def)

section \<open>Graph editor\<close>

lemma hits_iff:
  "hits x y p \<longleftrightarrow> (x - tToX (pt_t p))\<^sup>2 + (y - vToY (pt_v p))\<^sup>2 < 100"
proof -
  have "sqrt r < 10 \<longleftrightarrow> r < 100" for r :: real
    using real_sqrt_less_iff [of r 100] by simp
  then show ?thesis by (simp add: hits_def Let_def)
qed

lemma findIndex_none:
  "\<forall>p \<in> set ps. \<not> P p \<Longrightarrow> findIndex P ps = - 1"
  by (induction ps) (simp_all add: Let_def)

lemma findIndex_first:
  "k < length ps \<Longrightarrow> P (ps ! k) \<Longrightarrow> \<forall>j < k. \<not> P (ps ! j) \<Longrightarrow> findIndex P ps = int k"
proof (induction ps arbitrary: k)
  case Nil
  then show ?case by simp
next
  case (Cons p ps)
  show ?case
  proof (cases k)
    case 0
    with Cons.prems show ?thesis by simp
  next
    case (Suc m)
    with Cons.prems have "\<not> P p" by auto
    moreover have "findIndex P ps = int m"
    proof (rule Cons.IH)
      show "m < length ps" using Cons.prems(1) Suc by simp
      show "P (ps ! m)" using Cons.prems(2) Suc by simp
      show "\<forall>j < m. \<not> P (ps ! j)"
      proof (intro allI impI)
        fix j assume "j < m"
        then have "Suc j < k" using Suc by simp
        with Cons.prems(3) have "\<not> P ((p # ps) ! Suc j)" by blast
        then show "\<not> P (ps ! j)" by simp
      qed
    qed
    ultimately show ?thesis using Suc by (simp add: Let_def)
  qed
qed

lemma filter_enumerate_keep:
  "m < n \<Longrightarrow> map snd (filter (\<lambda>(i, p). i \<noteq> m) (enumerate n xs)) = xs"
  by (induction xs arbitrary: n) auto

lemma filter_enumerate_remove:
  "k < length xs \<Longrightarrow>
   map snd (filter (\<lambda>(i, p). i \<noteq> n + k) (enumerate n xs)) = take k xs @ drop (Suc k) xs"
proof (induction xs arbitrary: n k)
  case Nil
  then show ?case by simp
next
  case (Cons x xs)
  show ?case
  proof (cases k)
    case 0
    then show ?thesis using filter_enumerate_keep [of n "Suc n" xs] by simp
  next
    case (Suc m)
    with Cons.prems have "m < length xs" by simp
    from Cons.IH [OF this, of "Suc n"] Suc show ?thesis by simp
  qed
qed

lemma removeAt:
  "k < length xs \<Longrightarrow>
   map snd (filter (\<lambda>(i, p). int i \<noteq> int k) (enumerate 0 xs)) = take k xs @ drop (Suc k) xs"
  using filter_enumerate_remove [of k xs 0] by simp

lemmas editor_defs = width_def height_def padding_def tMax_def vMin_def vMax_def
  tToX_def vToY_def xToT_def yToV_def

text \<open>
  Claim C6, as stated: every pick that does not remove a point, including a pick near
  the first point, inserts a new point at the picked coordinate and re-sorts the set. It
  fails for a pick on the first of the two default points: the set stays as it is,
  and is not the set with the picked coordinate inserted.
\<close>

theorem pick_near_endpoint_counterexample:
  "handleSvgClick (tToX 0) (vToY 0) defaultPoints = defaultPoints
   \<and> handleSvgClick (tToX 0) (vToY 0) defaultPoints \<noteq>
       sortByTime (defaultPoints @
         [\<lparr>pt_t = toFixed1 (xToT (tToX 0)), pt_v = toFixed1 (yToV (vToY 0))\<rparr>])"
  by (simp add: handleSvgClick_def hits_iff editor_defs defaultPoints_def
      toFixed1_def sortByTime_def Let_def power2_eq_square)

text \<open>
  Claim C6, amended. A pick resolves to the first point of the set, in its order, that
  is drawn within the fixed tolerance of 10 pixels of the pick. If there is such a point
  and it is neither the first nor the last of the set, it is removed (the set then had at
  least 3 points); if it is the first or the last point, the set stays unchanged. If no
  point is within the tolerance, the picked coordinate, clamped to the domain and rounded
  to one decimal, is inserted and the set is sorted ascending by time. In particular,
  from the points (0,0), (20,0) the pick at (5,3) yields (0,0), (5,3), (20,0), and
  picking at or near (5,3) again restores the two original points.
\<close>

theorem pick_removes_keeps_or_inserts:
  "(k < length points \<and> hits x y (points ! k) \<and> (\<forall>j < k. \<not> hits x y (points ! j)) \<longrightarrow>
      (0 < k \<and> k < length points - 1 \<longrightarrow>
         handleSvgClick x y points = take k points @ drop (Suc k) points)
      \<and> (k = 0 \<or> k = length points - 1 \<longrightarrow> handleSvgClick x y points = points))
   \<and> ((\<forall>p \<in> set points. \<not> hits x y p) \<longrightarrow>
        handleSvgClick x y points =
          sortByTime (points @ [\<lparr>pt_t = toFixed1 (xToT x), pt_v = toFixed1 (yToV y)\<rparr>])
        \<and> sorted (map pt_t (handleSvgClick x y points))
        \<and> mset (handleSvgClick x y points) =
            mset points + {#\<lparr>pt_t = toFixed1 (xToT x), pt_v = toFixed1 (yToV y)\<rparr>#})
   \<and> handleSvgClick (tToX 5) (vToY 3) defaultPoints = pickedPoints
   \<and> handleSvgClick (tToX 5) (vToY 3) pickedPoints = defaultPoints
   \<and> handleSvgClick (tToX 5 + 3) (vToY 3 + 4) pickedPoints = defaultPoints"
proof (intro conjI impI)
  assume hit: "k < length points \<and> hits x y (points ! k) \<and> (\<forall>j < k. \<not> hits x y (points ! j))"
  then have idx: "findIndex (hits x y) points = int k"
    by (intro findIndex_first) simp_all
  {
    assume "0 < k \<and> k < length points - 1"
    then have "length points > 2" "int k \<noteq> 0" "int k \<noteq> int (length points) - 1"
      by auto
    then have "handleSvgClick x y points =
        map snd (filter (\<lambda>(i, p). int i \<noteq> int k) (enumerate 0 points))"
      by (simp add: handleSvgClick_def idx Let_def)
    also have "\<dots> = take k points @ drop (Suc k) points"
      using hit by (intro removeAt) simp
    finally show "handleSvgClick x y points = take k points @ drop (Suc k) points" .
  }
  {
    assume "k = 0 \<or> k = length points - 1"
    then have "int k = 0 \<or> int k = int (length points) - 1"
      using hit by auto
    then show "handleSvgClick x y points = points"
      by (auto simp: handleSvgClick_def idx Let_def)
  }
next
  assume "\<forall>p \<in> set points. \<not> hits x y p"
  then have "findIndex (hits x y) points = - 1" by (rule findIndex_none)
  then show ins: "handleSvgClick x y points =
      sortByTime (points @ [\<lparr>pt_t = toFixed1 (xToT x), pt_v = toFixed1 (yToV y)\<rparr>])"
    by (simp add: handleSvgClick_def Let_def)
  show "sorted (map pt_t (handleSvgClick x y points))"
    unfolding ins by (rule sortByTime_sorted)
  show "mset (handleSvgClick x y points) =
      mset points + {#\<lparr>pt_t = toFixed1 (xToT x), pt_v = toFixed1 (yToV y)\<rparr>#}"
    unfolding ins by (simp add: sortByTime_mset)
next
  show "handleSvgClick (tToX 5) (vToY 3) defaultPoints = pickedPoints"
    by (simp add: handleSvgClick_def hits_iff editor_defs defaultPoints_def pickedPoints_def
        toFixed1_def sortByTime_def Let_def power2_eq_square)
next
  show "handleSvgClick (tToX 5) (vToY 3) pickedPoints = defaultPoints"
    by (simp add: handleSvgClick_def hits_iff editor_defs defaultPoints_def pickedPoints_def
        toFixed1_def sortByTime_def Let_def power2_eq_square enumerate_eq_zip upt_conv_Cons)
next
  show "handleSvgClick (tToX 5 + 3) (vToY 3 + 4) pickedPoints = defaultPoints"
    by (simp add: handleSvgClick_def hits_iff editor_defs defaultPoints_def pickedPoints_def
        toFixed1_def sortByTime_def Let_def power2_eq_square enumerate_eq_zip upt_conv_Cons)
qed

theorem pick_removes_keeps_or_inserts_witness:
  "(1 < length pickedPoints \<and> hits 170 117 (pickedPoints ! 1)
      \<and> \<not> hits 170 117 (pickedPoints ! 0)
      \<and> 0 < (1::nat) \<and> 1 < length pickedPoints - 1
      \<and> handleSvgClick 170 117 pickedPoints = defaultPoints)
   \<and> (1 < length defaultPoints \<and> hits 560 150 (defaultPoints ! 1)
      \<and> \<not> hits 560 150 (defaultPoints ! 0)
      \<and> 1 = length defaultPoints - 1
      \<and> handleSvgClick 560 150 defaultPoints = defaultPoints)
   \<and> (\<not> hits 170 117 (defaultPoints ! 0) \<and> \<not> hits 170 117 (defaultPoints ! 1)
      \<and> set defaultPoints = {defaultPoints ! 0, defaultPoints ! 1}
      \<and> handleSvgClick 170 117 defaultPoints = pickedPoints)"
proof -
  have h1: "1 < length pickedPoints \<and> hits 170 117 (pickedPoints ! 1)
      \<and> \<not> hits 170 117 (pickedPoints ! 0)"
    by (simp add: hits_iff editor_defs pickedPoints_def power2_eq_square)
  have k1: "0 < (1::nat) \<and> 1 < length pickedPoints - 1"
    by (simp add: pickedPoints_def)
  have h2: "1 < length defaultPoints \<and> hits 560 150 (defaultPoints ! 1)
      \<and> \<not> hits 560 150 (defaultPoints ! 0)"
    by (simp add: hits_iff editor_defs defaultPoints_def power2_eq_square)
  have k2: "1 = length defaultPoints - 1"
    by (simp add: defaultPoints_def)
  have h3: "\<not> hits 170 117 (defaultPoints ! 0) \<and> \<not> hits 170 117 (defaultPoints ! 1)"
    by (simp add: hits_iff editor_defs defaultPoints_def power2_eq_square)
  have s3: "set defaultPoints = {defaultPoints ! 0, defaultPoints ! 1}"
    by (simp add: defaultPoints_def)
  have r1: "take 1 pickedPoints @ drop (Suc 1) pickedPoints = defaultPoints"
    by (simp add: pickedPoints_def defaultPoints_def)
  have r3: "sortByTime (defaultPoints @
      [\<lparr>pt_t = toFixed1 (xToT 170), pt_v = toFixed1 (yToV 117)\<rparr>]) = pickedPoints"
    by (simp add: editor_defs defaultPoints_def pickedPoints_def toFixed1_def sortByTime_def)
  have a3: "\<forall>p \<in> set defaultPoints. \<not> hits 170 117 p"
    unfolding s3 using h3 by simp
  show ?thesis
    using pick_removes_keeps_or_inserts [of 1 pickedPoints 170 117]
          pick_removes_keeps_or_inserts [of 1 defaultPoints 560 150]
          pick_removes_keeps_or_inserts [of 0 defaultPoints 170 117]
          h1 k1 h2 k2 h3 s3 a3 r1 r3
    by simp
qed


end
